theory Spec2Isabelle
  imports Main
begin

section \<open>Rectangle\<close>

text \<open>
  \<^verbatim>\<open>function Rectangle(width, height)\<close> returns the object literal
  \<^verbatim>\<open>{ width, height, getArea() { return this.width * this.height; } }\<close>.
  The two data properties are the fields of a record; the method is a function of its
  receiver. A JavaScript number is kept abstract: any type with the multiplication the
  method applies, so nothing below depends on how \<open>*\<close> rounds.
\<close>

record 'n rectangle =
  width :: 'n
  height :: 'n

definition Rectangle :: "'n \<Rightarrow> 'n \<Rightarrow> 'n rectangle" where
  "Rectangle w h = \<lparr>width = w, height = h\<rparr>"

definition getArea :: "'n::times rectangle \<Rightarrow> 'n" where
  "getArea this = width this * height this"

text \<open>The names bound by \<^verbatim>\<open>module.exports\<close>, in the order of the object literal.\<close>

definition module_exports :: "string list" where
  "module_exports = [''Rectangle'', ''getJSON'', ''fromJSON'', ''cssSelectorBuilder'']"


section \<open>The JSON helpers\<close>

text \<open>
  \<^verbatim>\<open>getJSON\<close> and \<^verbatim>\<open>fromJSON\<close> are calls of three functions of the language:
  \<^verbatim>\<open>JSON.stringify\<close>, \<^verbatim>\<open>JSON.parse\<close> and \<^verbatim>\<open>Object.setPrototypeOf\<close>. They are modelled
  here from the language specification (ECMA-262: the JSON object, QuoteJSONString, the
  JSON grammar, Object.setPrototypeOf), on the values a JSON text can denote.
\<close>

subsection \<open>Values\<close>

datatype exception = SyntaxError | TypeError

text \<open>
  What the internal prototype slot of an object can hold: one of the two built-in
  prototypes that \<^verbatim>\<open>JSON.parse\<close> gives to the objects and arrays it creates, an object
  of the program (a behaviour object, named by a value of type \<open>'b\<close>), or \<^verbatim>\<open>null\<close>.
\<close>

datatype 'b prototype = Object_prototype | Array_prototype | Behaviour 'b | No_prototype

text \<open>
  The JSON-representable values. The numbers are a type parameter \<open>'n\<close>: the finite
  numbers of the language, with its \<^verbatim>\<open>===\<close> as equality. A string is over the characters
  below U+0100. An array holds its prototype and its elements; an object holds its
  prototype and its own enumerable properties in the order of their enumeration (the
  language enumerates integer-like keys first; here every key is kept where it stands).
  Properties that hold functions or \<^verbatim>\<open>undefined\<close>, and a \<^verbatim>\<open>toJSON\<close> method, are outside
  these values.
\<close>

datatype ('n, 'b) js_value =
    JS_null
  | JS_boolean bool
  | JS_number 'n
  | JS_string string
  | JS_array "'b prototype" "('n, 'b) js_value list"
  | JS_object "'b prototype" "(string \<times> ('n, 'b) js_value) list"






subsection \<open>\<^verbatim>\<open>JSON.stringify\<close>\<close>

text \<open>
  QuoteJSONString: the two-character escapes of the table, \<^verbatim>\<open>\uXXXX\<close> with lower-case
  digits for the other characters below U+0020, every other character as it is.
\<close>

definition hex_digit :: "nat \<Rightarrow> char" where
  "hex_digit d = (if d < 10 then char_of (48 + d) else char_of (87 + d))"

definition UnicodeEscape :: "char \<Rightarrow> string" where
  "UnicodeEscape c =
     (let n = of_char c :: nat
      in [CHR 0x5C, CHR ''u'', hex_digit (n div 4096 mod 16), hex_digit (n div 256 mod 16),
          hex_digit (n div 16 mod 16), hex_digit (n mod 16)])"

definition quote_char :: "char \<Rightarrow> string" where
  "quote_char c =
     (if c = CHR 0x08 then [CHR 0x5C, CHR ''b'']
      else if c = CHR 0x09 then [CHR 0x5C, CHR ''t'']
      else if c = CHR 0x0A then [CHR 0x5C, CHR ''n'']
      else if c = CHR 0x0C then [CHR 0x5C, CHR ''f'']
      else if c = CHR 0x0D then [CHR 0x5C, CHR ''r'']
      else if c = CHR 0x22 then [CHR 0x5C, CHR 0x22]
      else if c = CHR 0x5C then [CHR 0x5C, CHR 0x5C]
      else if (of_char c :: nat) < 0x20 then UnicodeEscape c
      else [c])"

definition QuoteJSONString :: "string \<Rightarrow> string" where
  "QuoteJSONString s = [CHR 0x22] @ concat (map quote_char s) @ [CHR 0x22]"

fun join :: "string \<Rightarrow> string list \<Rightarrow> string" where
  "join sep [] = []"
| "join sep [x] = x"
| "join sep (x # y # ys) = x @ sep @ join sep (y # ys)"

text \<open>
  \<^verbatim>\<open>JSON.stringify(value)\<close> with no replacer and no indentation. Only own properties are
  written, so the prototypes play no part. The text of a number is the language's
  conversion of numbers to strings, the parameter \<open>sh\<close>.
\<close>

fun JSON_stringify :: "('n \<Rightarrow> string) \<Rightarrow> ('n, 'b) js_value \<Rightarrow> string" where
  "JSON_stringify sh JS_null = ''null''"
| "JSON_stringify sh (JS_boolean b) = (if b then ''true'' else ''false'')"
| "JSON_stringify sh (JS_number n) = sh n"
| "JSON_stringify sh (JS_string s) = QuoteJSONString s"
| "JSON_stringify sh (JS_array p vs) = ''['' @ join '','' (map (JSON_stringify sh) vs) @ '']''"
| "JSON_stringify sh (JS_object p fs) =
     ''{'' @ join '','' (map (\<lambda>(k, v). QuoteJSONString k @ '':'' @ JSON_stringify sh v) fs) @ ''}''"


subsection \<open>\<^verbatim>\<open>JSON.parse\<close>\<close>

text \<open>
  The JSON grammar: white space is tab, line feed, carriage return and space; a number
  token is the longest run of the characters a number is written with, and its value,
  or that it is no number of the grammar, is the parameter \<open>rd\<close>.
\<close>

definition is_whitespace :: "char \<Rightarrow> bool" where
  "is_whitespace c = (c = CHR 0x09 \<or> c = CHR 0x0A \<or> c = CHR 0x0D \<or> c = CHR 0x20)"

definition is_number_char :: "char \<Rightarrow> bool" where
  "is_number_char c = (c \<in> set ''0123456789+-.eE'')"

definition skip_whitespace :: "string \<Rightarrow> string" where
  "skip_whitespace s = dropWhile is_whitespace s"

definition hex_value :: "char \<Rightarrow> nat option" where
  "hex_value c =
     (let n = of_char c :: nat
      in if 48 \<le> n \<and> n \<le> 57 then Some (n - 48)
         else if 97 \<le> n \<and> n \<le> 102 then Some (n - 87)
         else if 65 \<le> n \<and> n \<le> 70 then Some (n - 55)
         else None)"

text \<open>
  The character that \<^verbatim>\<open>\uXXXX\<close> names. A character from U+0100 on is no character of the
  strings above: such a text is outside the model and is answered like a malformed one.
\<close>

definition hex4 :: "char \<Rightarrow> char \<Rightarrow> char \<Rightarrow> char \<Rightarrow> char option" where
  "hex4 a b c d =
     (case (hex_value a, hex_value b, hex_value c, hex_value d) of
        (Some x, Some y, Some z, Some w) \<Rightarrow>
          (let n = ((x * 16 + y) * 16 + z) * 16 + w in if n < 256 then Some (char_of n) else None)
      | _ \<Rightarrow> None)"

definition unescape :: "char \<Rightarrow> char option" where
  "unescape e =
     (if e = CHR 0x22 then Some (CHR 0x22)
      else if e = CHR 0x5C then Some (CHR 0x5C)
      else if e = CHR ''/'' then Some (CHR ''/'')
      else if e = CHR ''b'' then Some (CHR 0x08)
      else if e = CHR ''f'' then Some (CHR 0x0C)
      else if e = CHR ''n'' then Some (CHR 0x0A)
      else if e = CHR ''r'' then Some (CHR 0x0D)
      else if e = CHR ''t'' then Some (CHR 0x09)
      else None)"

definition cons_char :: "char \<Rightarrow> (string \<times> string) option \<Rightarrow> (string \<times> string) option" where
  "cons_char c r = (case r of None \<Rightarrow> None | Some (s, rest) \<Rightarrow> Some (c # s, rest))"

text \<open>
  The characters of a string token after its opening quote: the string, and the text
  after the closing quote. A character below U+0020 must be escaped.
\<close>

fun parse_chars :: "string \<Rightarrow> (string \<times> string) option" where
  "parse_chars [] = None"
| "parse_chars (c # cs) =
     (if c = CHR 0x22 then Some ([], cs)
      else if c = CHR 0x5C then
        (case cs of
           [] \<Rightarrow> None
         | e # es \<Rightarrow>
             if e = CHR ''u'' then
               (case es of
                  h1 # h2 # h3 # h4 # r \<Rightarrow>
                    (case hex4 h1 h2 h3 h4 of
                       None \<Rightarrow> None
                     | Some ch \<Rightarrow> cons_char ch (parse_chars r))
                | _ \<Rightarrow> None)
             else
               (case unescape e of
                  None \<Rightarrow> None
                | Some ch \<Rightarrow> cons_char ch (parse_chars es)))
      else if (of_char c :: nat) < 0x20 then None
      else cons_char c (parse_chars cs))"

text \<open>
  The members of an object text become properties one after the other: a key met again
  keeps its place and takes the later value.
\<close>

fun set_property :: "string \<Rightarrow> 'v \<Rightarrow> (string \<times> 'v) list \<Rightarrow> (string \<times> 'v) list" where
  "set_property k v [] = [(k, v)]"
| "set_property k v ((k', v') # fs) =
     (if k' = k then (k, v) # fs else (k', v') # set_property k v fs)"

definition properties :: "(string \<times> 'v) list \<Rightarrow> (string \<times> 'v) list" where
  "properties ms = foldl (\<lambda>fs (k, v). set_property k v fs) [] ms"

text \<open>
  A value, the elements of an array after its first bracket, the members of an object
  after its first brace; each with the text that follows. The recursion is on a counter
  that every call lowers by one. Between two calls that read no character there is one
  that reads at least one, so a counter of twice the length of the text and two, as
  \<open>JSON_parse\<close> sets it, is never used up.
\<close>

fun parse_value :: "(string \<Rightarrow> 'n option) \<Rightarrow> nat \<Rightarrow> string \<Rightarrow> (('n, 'b) js_value \<times> string) option"
  and parse_elements ::
    "(string \<Rightarrow> 'n option) \<Rightarrow> nat \<Rightarrow> string \<Rightarrow> (('n, 'b) js_value list \<times> string) option"
  and parse_members ::
    "(string \<Rightarrow> 'n option) \<Rightarrow> nat \<Rightarrow> string \<Rightarrow> ((string \<times> ('n, 'b) js_value) list \<times> string) option"
where
  "parse_value rd 0 s = None"
| "parse_value rd (Suc k) s =
     (case skip_whitespace s of
        [] \<Rightarrow> None
      | c # cs \<Rightarrow>
          if c = CHR 0x22 then
            (case parse_chars cs of None \<Rightarrow> None | Some (str, r) \<Rightarrow> Some (JS_string str, r))
          else if c = CHR ''['' then
            (case skip_whitespace cs of
               [] \<Rightarrow> None
             | d # r \<Rightarrow>
                 if d = CHR '']'' then Some (JS_array Array_prototype [], r)
                 else (case parse_elements rd k cs of
                         None \<Rightarrow> None
                       | Some (vs, r') \<Rightarrow> Some (JS_array Array_prototype vs, r')))
          else if c = CHR ''{'' then
            (case skip_whitespace cs of
               [] \<Rightarrow> None
             | d # r \<Rightarrow>
                 if d = CHR ''}'' then Some (JS_object Object_prototype [], r)
                 else (case parse_members rd k cs of
                         None \<Rightarrow> None
                       | Some (ms, r') \<Rightarrow> Some (JS_object Object_prototype (properties ms), r')))
          else if take 4 (c # cs) = ''null'' then Some (JS_null, drop 4 (c # cs))
          else if take 4 (c # cs) = ''true'' then Some (JS_boolean True, drop 4 (c # cs))
          else if take 5 (c # cs) = ''false'' then Some (JS_boolean False, drop 5 (c # cs))
          else if is_number_char c then
            (case rd (takeWhile is_number_char (c # cs)) of
               None \<Rightarrow> None
             | Some n \<Rightarrow> Some (JS_number n, dropWhile is_number_char (c # cs)))
          else None)"
| "parse_elements rd 0 s = None"
| "parse_elements rd (Suc k) s =
     (case parse_value rd k s of
        None \<Rightarrow> None
      | Some (v, r) \<Rightarrow>
          (case skip_whitespace r of
             [] \<Rightarrow> None
           | d # r' \<Rightarrow>
               if d = CHR '','' then
                 (case parse_elements rd k r' of
                    None \<Rightarrow> None
                  | Some (vs, r'') \<Rightarrow> Some (v # vs, r''))
               else if d = CHR '']'' then Some ([v], r')
               else None))"
| "parse_members rd 0 s = None"
| "parse_members rd (Suc k) s =
     (case skip_whitespace s of
        [] \<Rightarrow> None
      | q # cs \<Rightarrow>
          if q \<noteq> CHR 0x22 then None
          else
            (case parse_chars cs of
               None \<Rightarrow> None
             | Some (key, r) \<Rightarrow>
                 (case skip_whitespace r of
                    [] \<Rightarrow> None
                  | colon # r1 \<Rightarrow>
                      if colon \<noteq> CHR '':'' then None
                      else
                        (case parse_value rd k r1 of
                           None \<Rightarrow> None
                         | Some (v, r2) \<Rightarrow>
                             (case skip_whitespace r2 of
                                [] \<Rightarrow> None
                              | d # r3 \<Rightarrow>
                                  if d = CHR '','' then
                                    (case parse_members rd k r3 of
                                       None \<Rightarrow> None
                                     | Some (ms, r4) \<Rightarrow> Some ((key, v) # ms, r4))
                                  else if d = CHR ''}'' then Some ([(key, v)], r3)
                                  else None)))))"

text \<open>
  \<^verbatim>\<open>JSON.parse(text)\<close> with no reviver: one value, with nothing but white space after it;
  anything else throws a SyntaxError.
\<close>

definition JSON_parse :: "(string \<Rightarrow> 'n option) \<Rightarrow> string \<Rightarrow> exception + ('n, 'b) js_value" where
  "JSON_parse rd text =
     (case parse_value rd (2 * length text + 2) text of
        None \<Rightarrow> Inl SyntaxError
      | Some (v, r) \<Rightarrow> if skip_whitespace r = [] then Inr v else Inl SyntaxError)"


subsection \<open>\<^verbatim>\<open>Object.setPrototypeOf\<close> and the two helpers\<close>

text \<open>
  \<^verbatim>\<open>Object.setPrototypeOf(O, proto)\<close>: a TypeError when \<open>O\<close> is \<^verbatim>\<open>null\<close>; \<open>O\<close> as it is
  when it is no object; else \<open>O\<close> with \<open>proto\<close> as its prototype (the objects met here are
  ordinary and extensible, so that step succeeds). The type of \<open>proto\<close> leaves an object
  or \<^verbatim>\<open>null\<close> only. The result is the state of \<open>O\<close> after the call.
\<close>

definition Object_setPrototypeOf ::
  "('n, 'b) js_value \<Rightarrow> 'b prototype \<Rightarrow> exception + ('n, 'b) js_value" where
  "Object_setPrototypeOf obj proto =
     (case obj of
        JS_null \<Rightarrow> Inl TypeError
      | JS_array p vs \<Rightarrow> Inr (JS_array proto vs)
      | JS_object p fs \<Rightarrow> Inr (JS_object proto fs)
      | _ \<Rightarrow> Inr obj)"

definition getJSON :: "('n \<Rightarrow> string) \<Rightarrow> ('n, 'b) js_value \<Rightarrow> string" where
  "getJSON sh obj = JSON_stringify sh obj"

text \<open>
  \<^verbatim>\<open>fromJSON\<close> drops what \<^verbatim>\<open>Object.setPrototypeOf\<close> returns and returns \<open>obj\<close>, which that
  call has changed in place.
\<close>

definition fromJSON ::
  "(string \<Rightarrow> 'n option) \<Rightarrow> 'b prototype \<Rightarrow> string \<Rightarrow> exception + ('n, 'b) js_value" where
  "fromJSON rd proto json =
     (case JSON_parse rd json of
        Inl e \<Rightarrow> Inl e
      | Inr obj \<Rightarrow>
          (case Object_setPrototypeOf obj proto of
             Inl e \<Rightarrow> Inl e
           | Inr obj' \<Rightarrow> Inr obj'))"


subsection \<open>The text of numbers\<close>


text \<open>
  The integers among the numbers: their text is decimal, with a sign when negative; a
  text with a fraction or an exponent is no integer and is refused here.
\<close>

fun show_nat :: "nat \<Rightarrow> string" where
  "show_nat n = (if n < 10 then [char_of (48 + n)] else show_nat (n div 10) @ [char_of (48 + n mod 10)])"

definition show_int :: "int \<Rightarrow> string" where
  "show_int i = (if i < 0 then CHR ''-'' # show_nat (nat (- i)) else show_nat (nat i))"

definition is_digit :: "char \<Rightarrow> bool" where
  "is_digit c = (c \<in> set ''0123456789'')"

definition read_nat :: "string \<Rightarrow> nat option" where
  "read_nat s =
     (if s = [] \<or> \<not> list_all is_digit s \<or> (hd s = CHR ''0'' \<and> tl s \<noteq> []) then None
      else Some (foldl (\<lambda>a c. 10 * a + (of_char c - 48)) 0 s))"

definition read_int :: "string \<Rightarrow> int option" where
  "read_int s =
     (case s of
        [] \<Rightarrow> None
      | c # cs \<Rightarrow>
          if c = CHR ''-'' then map_option (\<lambda>n. - int n) (read_nat cs)
          else map_option int (read_nat s))"


subsection \<open>Measures for the proofs\<close>


text \<open>A text after a number token: it does not go on with a character of numbers.\<close>

definition delimited :: "string \<Rightarrow> bool" where
  "delimited r = (case r of [] \<Rightarrow> True | c # _ \<Rightarrow> \<not> is_number_char c)"



section \<open>The selector class\<close>

text \<open>
  Both \<^verbatim>\<open>throw\<close> statements of the class raise a plain \<^verbatim>\<open>Error\<close>; the two
  errors differ in their message only.
\<close>

datatype error = Error string

definition order_message :: string where
  "order_message = ''Selector parts should be arranged in the following order: element, id, class, attribute, pseudo-class, pseudo-element''"

definition duplicate_message :: string where
  "duplicate_message = ''Element, id and pseudo-element should not occur more then one time inside the selector''"

text \<open>
  \<^verbatim>\<open>this.settings\<close>: the three single-valued properties start as \<^verbatim>\<open>null\<close>
  (\<open>None\<close>), the three arrays start empty. Fragments are strings.
\<close>

record selector_settings =
  element :: "string option"
  id' :: "string option"
  class' :: "string list"
  attr :: "string list"
  pseudoClass :: "string list"
  pseudoElement :: "string option"

record CreateSelector =
  settings :: selector_settings
  lastElement :: string

text \<open>
  \<^verbatim>\<open>this.positionsElements\<close> is assigned once, by the constructor, and never written
  again: it is a constant of the model.
\<close>

definition positionsElements :: "string list" where
  "positionsElements = [''element'', ''id'', ''class'', ''attr'', ''pseudoClass'', ''pseudoElement'']"

definition CreateSelector_constructor :: CreateSelector where
  "CreateSelector_constructor =
     \<lparr>settings = \<lparr>element = None, id' = None, class' = [], attr = [], pseudoClass = [],
                   pseudoElement = None\<rparr>,
      lastElement = ''''\<rparr>"

text \<open>\<^verbatim>\<open>Array.prototype.indexOf\<close>: the first index holding the value, \<open>-1\<close> when none does.\<close>

fun indexOf_from :: "'a list \<Rightarrow> 'a \<Rightarrow> int \<Rightarrow> int" where
  "indexOf_from [] x k = - 1"
| "indexOf_from (y # ys) x k = (if y = x then k else indexOf_from ys x (k + 1))"

definition indexOf :: "'a list \<Rightarrow> 'a \<Rightarrow> int" where
  "indexOf xs x = indexOf_from xs x 0"

text \<open>
  A method call on a selector maps the receiver's state to how the call completed
  (\<open>None\<close>: it returned; \<open>Some e\<close>: it threw \<open>e\<close>) and the receiver's state after the
  call. Every fragment method ends with \<^verbatim>\<open>return this\<close>, so the value a caller chains
  on is the receiver itself, in the state of the second component.
\<close>

type_synonym completion = "error option \<times> CreateSelector"

definition position :: "string \<Rightarrow> CreateSelector \<Rightarrow> completion" where
  "position elPosition this =
     (if indexOf positionsElements elPosition < indexOf positionsElements (lastElement this)
      then (Some (Error order_message), this)
      else if (elPosition = ''element'' \<or> elPosition = ''id'' \<or> elPosition = ''pseudoElement'')
              \<and> indexOf positionsElements elPosition = indexOf positionsElements (lastElement this)
      then (Some (Error duplicate_message), this)
      else (None, this\<lparr>lastElement := elPosition\<rparr>))"

definition CreateSelector_element :: "string \<Rightarrow> CreateSelector \<Rightarrow> completion" where
  "CreateSelector_element v this =
     (case position ''element'' this of
        (Some e, this') \<Rightarrow> (Some e, this')
      | (None, this') \<Rightarrow> (None, this'\<lparr>settings := (settings this')\<lparr>element := Some v\<rparr>\<rparr>))"

definition CreateSelector_id :: "string \<Rightarrow> CreateSelector \<Rightarrow> completion" where
  "CreateSelector_id v this =
     (case position ''id'' this of
        (Some e, this') \<Rightarrow> (Some e, this')
      | (None, this') \<Rightarrow> (None, this'\<lparr>settings := (settings this')\<lparr>id' := Some v\<rparr>\<rparr>))"

definition CreateSelector_class :: "string \<Rightarrow> CreateSelector \<Rightarrow> completion" where
  "CreateSelector_class className this =
     (case position ''class'' this of
        (Some e, this') \<Rightarrow> (Some e, this')
      | (None, this') \<Rightarrow>
          (None, this'\<lparr>settings := (settings this')\<lparr>class' := class' (settings this') @ [className]\<rparr>\<rparr>))"

definition CreateSelector_attr :: "string \<Rightarrow> CreateSelector \<Rightarrow> completion" where
  "CreateSelector_attr v this =
     (case position ''attr'' this of
        (Some e, this') \<Rightarrow> (Some e, this')
      | (None, this') \<Rightarrow>
          (None, this'\<lparr>settings := (settings this')\<lparr>attr := attr (settings this') @ [v]\<rparr>\<rparr>))"

definition CreateSelector_pseudoClass :: "string \<Rightarrow> CreateSelector \<Rightarrow> completion" where
  "CreateSelector_pseudoClass v this =
     (case position ''pseudoClass'' this of
        (Some e, this') \<Rightarrow> (Some e, this')
      | (None, this') \<Rightarrow>
          (None, this'\<lparr>settings := (settings this')\<lparr>pseudoClass := pseudoClass (settings this') @ [v]\<rparr>\<rparr>))"

definition CreateSelector_pseudoElement :: "string \<Rightarrow> CreateSelector \<Rightarrow> completion" where
  "CreateSelector_pseudoElement v this =
     (case position ''pseudoElement'' this of
        (Some e, this') \<Rightarrow> (Some e, this')
      | (None, this') \<Rightarrow> (None, this'\<lparr>settings := (settings this')\<lparr>pseudoElement := Some v\<rparr>\<rparr>))"


subsection \<open>Rendering\<close>

text \<open>
  The values \<^verbatim>\<open>Object.values(d)\<close> can hold: \<^verbatim>\<open>null\<close>, a string, an array of strings.
  The keys of \<^verbatim>\<open>settings\<close> are not integer-like, so they are listed in the order in which
  the constructor created them; assigning to a key that exists keeps its place.
\<close>

datatype jsval = Null | Str string | Arr "string list"

definition of_nullable :: "string option \<Rightarrow> jsval" where
  "of_nullable v = (case v of None \<Rightarrow> Null | Some s \<Rightarrow> Str s)"

definition Object_values :: "selector_settings \<Rightarrow> jsval list" where
  "Object_values d =
     [of_nullable (element d), of_nullable (id' d), Arr (class' d), Arr (attr d),
      Arr (pseudoClass d), of_nullable (pseudoElement d)]"

text \<open>
  Truthiness as \<^verbatim>\<open>||\<close> tests it: \<^verbatim>\<open>null\<close> and the empty string are falsy, every
  other string and every array (the empty one too) is truthy.
\<close>

fun truthy :: "jsval \<Rightarrow> bool" where
  "truthy Null = False"
| "truthy (Str s) = (s \<noteq> [])"
| "truthy (Arr xs) = True"

text \<open>
  \<^verbatim>\<open>let element = selec || []; if (!Array.isArray(element) && element != null) element = [element];\<close>
  gives the array the loop reduces. After \<^verbatim>\<open>||\<close> the value is truthy or the empty array,
  so \<^verbatim>\<open>null\<close> never reaches the last case (lemma \<open>or_empty_not_Null\<close>).
\<close>

definition or_empty :: "jsval \<Rightarrow> jsval" where
  "or_empty selec = (if truthy selec then selec else Arr [])"

definition as_array :: "jsval \<Rightarrow> string list" where
  "as_array v = (case v of Arr xs \<Rightarrow> xs | Str s \<Rightarrow> [s] | Null \<Rightarrow> [])"

text \<open>
  The two local tables of \<^verbatim>\<open>stringify\<close>. (\<open>before\<close> is reserved in the target language of
  the code generator, hence the suffix.)
\<close>

definition before_arr :: "string list" where
  "before_arr = ['''', ''#'', ''.'', ''['', '':'', ''::'']"

definition after_arr :: "string list" where
  "after_arr = ['''', '''', '''', '']'', '''', '''']"

text \<open>\<^verbatim>\<open>xs.reduce(f, init)\<close>: a left fold from \<open>init\<close>.\<close>

definition reduce :: "'a list \<Rightarrow> ('b \<Rightarrow> 'a \<Rightarrow> 'b) \<Rightarrow> 'b \<Rightarrow> 'b" where
  "reduce xs f init = foldl f init xs"

text \<open>One pass of the \<^verbatim>\<open>for\<close> loop: what iteration \<open>i\<close> makes of \<open>str\<close>.\<close>

definition stringify_step :: "selector_settings \<Rightarrow> nat \<Rightarrow> string \<Rightarrow> string" where
  "stringify_step d i str =
     (let selec = Object_values d ! i;
          elems = as_array (or_empty selec)
      in str @ reduce elems (\<lambda>prev current. prev @ before_arr ! i @ current @ after_arr ! i) '''')"

text \<open>
  \<^verbatim>\<open>stringify()\<close> runs the loop for \<open>i = 0, \<dots>, before.length - 1\<close> and returns \<open>str\<close>.
  It assigns to its local variables only; the receiver comes back as it was.
\<close>

definition CreateSelector_stringify :: "CreateSelector \<Rightarrow> string \<times> CreateSelector" where
  "CreateSelector_stringify this =
     (let d = settings this
      in (fold (stringify_step d) [0 ..< length before_arr] '''', this))"


section \<open>Combined selectors and the facade\<close>

text \<open>
  A selector value is a \<^verbatim>\<open>CreateSelector\<close> or a \<^verbatim>\<open>Combinator\<close>, whose
  \<^verbatim>\<open>this.selectors\<close> holds the two operands and the token between them.
\<close>

datatype selector =
    Selector CreateSelector
  | Combinator (s1: selector) (comb: string) (s2: selector)

text \<open>
  \<^verbatim>\<open>x.stringify()\<close> dispatches on what \<open>x\<close> is. The template literal of
  \<^verbatim>\<open>Combinator.prototype.stringify\<close> evaluates the left operand's call, then the right
  one's. As above, the second component is the receiver after the call.
\<close>

fun stringify :: "selector \<Rightarrow> string \<times> selector" where
  "stringify (Selector c) =
     (case CreateSelector_stringify c of (str, c') \<Rightarrow> (str, Selector c'))"
| "stringify (Combinator l t r) =
     (case stringify l of (a, l') \<Rightarrow>
        (case stringify r of (b, r') \<Rightarrow>
           (a @ '' '' @ t @ '' '' @ b, Combinator l' t r')))"

definition combine :: "selector \<Rightarrow> string \<Rightarrow> selector \<Rightarrow> selector" where
  "combine selector1 combinator selector2 = Combinator selector1 combinator selector2"

text \<open>The six fragment methods of the facade: each on a selector of its own.\<close>

definition cssSelectorBuilder_element :: "string \<Rightarrow> completion" where
  "cssSelectorBuilder_element v = CreateSelector_element v CreateSelector_constructor"

definition cssSelectorBuilder_id :: "string \<Rightarrow> completion" where
  "cssSelectorBuilder_id v = CreateSelector_id v CreateSelector_constructor"

definition cssSelectorBuilder_class :: "string \<Rightarrow> completion" where
  "cssSelectorBuilder_class className = CreateSelector_class className CreateSelector_constructor"

definition cssSelectorBuilder_attr :: "string \<Rightarrow> completion" where
  "cssSelectorBuilder_attr v = CreateSelector_attr v CreateSelector_constructor"

definition cssSelectorBuilder_pseudoClass :: "string \<Rightarrow> completion" where
  "cssSelectorBuilder_pseudoClass pseudoClassName = CreateSelector_pseudoClass pseudoClassName CreateSelector_constructor"

definition cssSelectorBuilder_pseudoElement :: "string \<Rightarrow> completion" where
  "cssSelectorBuilder_pseudoElement pseudoElementName =
     CreateSelector_pseudoElement pseudoElementName CreateSelector_constructor"


section \<open>Call sequences\<close>

text \<open>
  A fragment-adding call names its method and carries its argument. \<open>kind\<close> is the
  string that method passes to \<^verbatim>\<open>position\<close>.
\<close>

datatype call =
    Element string
  | Id' string
  | Class string
  | Attr string
  | PseudoClass string
  | PseudoElement string

fun kind :: "call \<Rightarrow> string" where
  "kind (Element v) = ''element''"
| "kind (Id' v) = ''id''"
| "kind (Class v) = ''class''"
| "kind (Attr v) = ''attr''"
| "kind (PseudoClass v) = ''pseudoClass''"
| "kind (PseudoElement v) = ''pseudoElement''"

fun fragment :: "call \<Rightarrow> string" where
  "fragment (Element v) = v"
| "fragment (Id' v) = v"
| "fragment (Class v) = v"
| "fragment (Attr v) = v"
| "fragment (PseudoClass v) = v"
| "fragment (PseudoElement v) = v"

fun invoke :: "call \<Rightarrow> CreateSelector \<Rightarrow> completion" where
  "invoke (Element v) this = CreateSelector_element v this"
| "invoke (Id' v) this = CreateSelector_id v this"
| "invoke (Class v) this = CreateSelector_class v this"
| "invoke (Attr v) this = CreateSelector_attr v this"
| "invoke (PseudoClass v) this = CreateSelector_pseudoClass v this"
| "invoke (PseudoElement v) this = CreateSelector_pseudoElement v this"

text \<open>
  The chain \<^verbatim>\<open>this.m1(v1).m2(v2)...\<close>: each call is made on what the one before it
  returned, and a call that throws ends the evaluation.
\<close>

fun chain :: "call list \<Rightarrow> CreateSelector \<Rightarrow> completion" where
  "chain [] this = (None, this)"
| "chain (c # cs) this =
     (case invoke c this of
        (Some e, this') \<Rightarrow> (Some e, this')
      | (None, this') \<Rightarrow> chain cs this')"

text \<open>
  A caller who holds a selector value and calls \<^verbatim>\<open>stringify()\<close> on it \<open>n\<close> times
  in a row: the strings returned, first call first, and the value after the last call.
\<close>

fun stringify_times :: "nat \<Rightarrow> selector \<Rightarrow> string list \<times> selector" where
  "stringify_times 0 s = ([], s)"
| "stringify_times (Suc n) s =
     (case stringify s of (str, s') \<Rightarrow>
        (case stringify_times n s' of (strs, s'') \<Rightarrow> (str # strs, s'')))"


section \<open>The specification's vocabulary\<close>

text \<open>
  The rank of a category is its index in the fixed order; the single-occurrence
  categories are element, id and pseudo-element.
\<close>

definition rank :: "string \<Rightarrow> int" where
  "rank K = indexOf positionsElements K"

definition singleton_kind :: "string \<Rightarrow> bool" where
  "singleton_kind K = (K = ''element'' \<or> K = ''id'' \<or> K = ''pseudoElement'')"

text \<open>The decoration of each category, as the specification lists it.\<close>

fun decorated :: "call \<Rightarrow> string" where
  "decorated (Element v) = v"
| "decorated (Id' v) = ''#'' @ v"
| "decorated (Class v) = ''.'' @ v"
| "decorated (Attr v) = ''['' @ v @ '']''"
| "decorated (PseudoClass v) = '':'' @ v"
| "decorated (PseudoElement v) = ''::'' @ v"

text \<open>
  The rendering as the specification words it: category by category in the fixed order,
  every fragment of the category in insertion order, each with its decoration.
\<close>

definition spec_stringify :: "call list \<Rightarrow> string" where
  "spec_stringify cs =
     concat (map (\<lambda>K. concat (map decorated (filter (\<lambda>c. kind c = K) cs))) positionsElements)"

text \<open>
  The same, except that an empty string given as element, id or pseudo-element
  contributes nothing, its decoration included.
\<close>

definition rendered :: "call \<Rightarrow> string" where
  "rendered c = (if singleton_kind (kind c) \<and> fragment c = [] then [] else decorated c)"

definition grouped_stringify :: "call list \<Rightarrow> string" where
  "grouped_stringify cs =
     concat (map (\<lambda>K. concat (map rendered (filter (\<lambda>c. kind c = K) cs))) positionsElements)"

text \<open>How often a category occurs in a call sequence.\<close>

definition occurrences :: "string \<Rightarrow> call list \<Rightarrow> nat" where
  "occurrences K cs = length (filter (\<lambda>c. kind c = K) cs)"


text \<open>
  What a single-valued property adds to the output: nothing when it is \<^verbatim>\<open>null\<close> or the
  empty string, else its value after the prefix.
\<close>

definition nullable_part :: "string \<Rightarrow> string option \<Rightarrow> string" where
  "nullable_part b v = (case v of None \<Rightarrow> [] | Some s \<Rightarrow> if s = [] then [] else b @ s)"


section \<open>Ranks and the ordering check\<close>

text \<open>
  The rank of every string: the six categories have the ranks 0 to 5, everything else,
  the initial \<^verbatim>\<open>''\<close> included, has rank \<open>-1\<close>.
\<close>

lemma rank_unfold:
  "rank K = (if K = ''element'' then 0 else if K = ''id'' then 1 else if K = ''class'' then 2
             else if K = ''attr'' then 3 else if K = ''pseudoClass'' then 4
             else if K = ''pseudoElement'' then 5 else - 1)"
  by (simp add: rank_def indexOf_def positionsElements_def)

lemma rank_kind_nonneg: "0 \<le> rank (kind c)"
  by (cases c) (simp_all add: rank_unfold)

lemma rank_eq_kind: "rank L = rank (kind c) \<Longrightarrow> L = kind c"
  by (cases c) (simp_all add: rank_unfold split: if_splits)

lemma nth_rank_kind: "positionsElements ! nat (rank (kind c)) = kind c"
  by (cases c) (simp_all add: rank_unfold positionsElements_def)

lemma position_rank:
  "position K this =
     (if rank K < rank (lastElement this) then (Some (Error order_message), this)
      else if singleton_kind K \<and> rank K = rank (lastElement this)
      then (Some (Error duplicate_message), this)
      else (None, this\<lparr>lastElement := K\<rparr>))"
  by (simp add: position_def rank_def singleton_kind_def)

lemmas method_defs =
  CreateSelector_element_def CreateSelector_id_def CreateSelector_class_def
  CreateSelector_attr_def CreateSelector_pseudoClass_def CreateSelector_pseudoElement_def

lemmas run_simps =
  method_defs position_rank rank_unfold singleton_kind_def CreateSelector_constructor_def

text \<open>
  The three outcomes of a fragment method, by the rank of its category against the rank
  of \<^verbatim>\<open>lastElement\<close>.
\<close>

lemma invoke_order: "rank (kind c) < rank (lastElement this) \<Longrightarrow> invoke c this = (Some (Error order_message), this)"
  by (cases c) (simp_all add: method_defs position_rank)

lemma invoke_duplicate:
  "singleton_kind (kind c) \<Longrightarrow> rank (kind c) = rank (lastElement this) \<Longrightarrow>
   invoke c this = (Some (Error duplicate_message), this)"
  by (cases c) (simp_all add: method_defs position_rank)

lemma invoke_ok:
  "\<not> rank (kind c) < rank (lastElement this) \<Longrightarrow>
   \<not> (singleton_kind (kind c) \<and> rank (kind c) = rank (lastElement this)) \<Longrightarrow>
   fst (invoke c this) = None \<and> lastElement (snd (invoke c this)) = kind c"
  by (cases c) (simp_all add: method_defs position_rank)

lemma invoke_cases:
  obtains
    (order) "rank (kind c) < rank (lastElement this)" "invoke c this = (Some (Error order_message), this)"
  | (duplicate) "singleton_kind (kind c)" "lastElement this = kind c"
      "invoke c this = (Some (Error duplicate_message), this)"
  | (ok) "rank (lastElement this) \<le> rank (kind c)" "lastElement this = kind c \<longrightarrow> \<not> singleton_kind (kind c)"
      "fst (invoke c this) = None" "lastElement (snd (invoke c this)) = kind c"
proof (cases "rank (kind c) < rank (lastElement this)")
  case True
  then show ?thesis using order invoke_order by blast
next
  case nlt: False
  show ?thesis
  proof (cases "singleton_kind (kind c) \<and> rank (kind c) = rank (lastElement this)")
    case True
    then have "lastElement this = kind c" using rank_eq_kind [of "lastElement this" c] by simp
    with True show ?thesis using duplicate invoke_duplicate by blast
  next
    case False
    from nlt have "rank (lastElement this) \<le> rank (kind c)" by simp
    moreover from False have "lastElement this = kind c \<longrightarrow> \<not> singleton_kind (kind c)" by auto
    ultimately show ?thesis using invoke_ok [OF nlt False] by (intro ok) simp_all
  qed
qed

lemma invoke_settings:
  "fst (invoke c s) = None \<Longrightarrow>
   settings (snd (invoke c s)) =
     (case c of
        Element v \<Rightarrow> (settings s)\<lparr>element := Some v\<rparr>
      | Id' v \<Rightarrow> (settings s)\<lparr>id' := Some v\<rparr>
      | Class v \<Rightarrow> (settings s)\<lparr>class' := class' (settings s) @ [v]\<rparr>
      | Attr v \<Rightarrow> (settings s)\<lparr>attr := attr (settings s) @ [v]\<rparr>
      | PseudoClass v \<Rightarrow> (settings s)\<lparr>pseudoClass := pseudoClass (settings s) @ [v]\<rparr>
      | PseudoElement v \<Rightarrow> (settings s)\<lparr>pseudoElement := Some v\<rparr>)"
  by (cases c) (auto simp: method_defs position_rank split: if_splits)


section \<open>Chains of calls\<close>

lemma chain_append:
  "chain (xs @ ys) s =
     (case chain xs s of (Some e, s') \<Rightarrow> (Some e, s') | (None, s') \<Rightarrow> chain ys s')"
  by (induction xs arbitrary: s) (auto split: prod.splits option.splits)

lemma chain_Cons_ok: "fst (invoke c s) = None \<Longrightarrow> chain (c # cs) s = chain cs (snd (invoke c s))"
  by (cases "invoke c s") auto

lemma chain_ok_Cons:
  assumes "fst (chain (c # cs) s) = None"
  shows "fst (invoke c s) = None \<and> fst (chain cs (snd (invoke c s))) = None"
  using assms by (cases "invoke c s") (auto split: option.splits)

lemma chain_Some_Cons:
  assumes "chain (c # cs) s = (None, s')"
  shows "fst (invoke c s) = None \<and> chain cs (snd (invoke c s)) = (None, s')"
  using assms by (cases "invoke c s") (auto split: option.splits)

lemma chain_result: "fst (chain cs s) = None \<Longrightarrow> chain cs s = (None, snd (chain cs s))"
  by (simp add: prod_eq_iff)

lemma chain_lastElement:
  "chain cs s = (None, s') \<Longrightarrow> cs \<noteq> [] \<Longrightarrow> lastElement s' = kind (last cs)"
proof (induction cs arbitrary: s)
  case Nil
  then show ?case by simp
next
  case (Cons a cs)
  from chain_Some_Cons [OF Cons.prems(1)]
  have ok: "fst (invoke a s) = None" and rest: "chain cs (snd (invoke a s)) = (None, s')" by auto
  from ok have last: "lastElement (snd (invoke a s)) = kind a"
    by (cases rule: invoke_cases [of a s]; simp)
  show ?case
  proof (cases "cs = []")
    case True
    with rest last show ?thesis by simp
  next
    case False
    with Cons.IH [OF rest] show ?thesis by simp
  qed
qed

text \<open>
  Every entry point of the facade is the first call of a chain on a fresh selector.
\<close>

lemma cssSelectorBuilder_chain:
  "chain (Element v # cs) CreateSelector_constructor =
     (case cssSelectorBuilder_element v of (Some e, s) \<Rightarrow> (Some e, s) | (None, s) \<Rightarrow> chain cs s)"
  "chain (Id' v # cs) CreateSelector_constructor =
     (case cssSelectorBuilder_id v of (Some e, s) \<Rightarrow> (Some e, s) | (None, s) \<Rightarrow> chain cs s)"
  "chain (Class v # cs) CreateSelector_constructor =
     (case cssSelectorBuilder_class v of (Some e, s) \<Rightarrow> (Some e, s) | (None, s) \<Rightarrow> chain cs s)"
  "chain (Attr v # cs) CreateSelector_constructor =
     (case cssSelectorBuilder_attr v of (Some e, s) \<Rightarrow> (Some e, s) | (None, s) \<Rightarrow> chain cs s)"
  "chain (PseudoClass v # cs) CreateSelector_constructor =
     (case cssSelectorBuilder_pseudoClass v of (Some e, s) \<Rightarrow> (Some e, s) | (None, s) \<Rightarrow> chain cs s)"
  "chain (PseudoElement v # cs) CreateSelector_constructor =
     (case cssSelectorBuilder_pseudoElement v of (Some e, s) \<Rightarrow> (Some e, s) | (None, s) \<Rightarrow> chain cs s)"
  by (simp_all add: cssSelectorBuilder_element_def cssSelectorBuilder_id_def cssSelectorBuilder_class_def cssSelectorBuilder_attr_def
      cssSelectorBuilder_pseudoClass_def cssSelectorBuilder_pseudoElement_def)

text \<open>
  A chain that runs to its end went through ranks that never decrease, and through each
  single-occurrence category at most once; a call sequence of that shape runs to its end.
\<close>

lemma chain_rank_ge:
  "fst (chain cs s) = None \<Longrightarrow> c \<in> set cs \<Longrightarrow> rank (lastElement s) \<le> rank (kind c)"
proof (induction cs arbitrary: s)
  case Nil
  then show ?case by simp
next
  case (Cons a cs)
  from chain_ok_Cons [OF Cons.prems(1)]
  have ok: "fst (invoke a s) = None" and rest: "fst (chain cs (snd (invoke a s))) = None" by auto
  from ok have le: "rank (lastElement s) \<le> rank (kind a)" and last: "lastElement (snd (invoke a s)) = kind a"
    by (cases rule: invoke_cases [of a s]; simp)+
  show ?case
  proof (cases "c = a")
    case True
    with le show ?thesis by simp
  next
    case False
    with Cons.prems(2) have "c \<in> set cs" by simp
    from Cons.IH [OF rest this] last le show ?thesis by simp
  qed
qed

lemma chain_sorted: "fst (chain cs s) = None \<Longrightarrow> sorted (map (\<lambda>c. rank (kind c)) cs)"
proof (induction cs arbitrary: s)
  case Nil
  then show ?case by simp
next
  case (Cons a cs)
  from chain_ok_Cons [OF Cons.prems(1)]
  have ok: "fst (invoke a s) = None" and rest: "fst (chain cs (snd (invoke a s))) = None" by auto
  from ok have last: "lastElement (snd (invoke a s)) = kind a"
    by (cases rule: invoke_cases [of a s]; simp)
  have "\<forall>c\<in>set cs. rank (kind a) \<le> rank (kind c)"
    using chain_rank_ge [OF rest] last by simp
  with Cons.IH [OF rest] show ?case by simp
qed

lemma sorted_last_ge:
  "sorted (map f xs) \<Longrightarrow> x \<in> set xs \<Longrightarrow> f x \<le> f (last xs)"
  by (induction xs) (auto split: if_splits)

lemma chain_no_repeat:
  assumes "fst (chain cs s) = None" "singleton_kind (lastElement s)" "c \<in> set cs"
  shows "kind c \<noteq> lastElement s"
  using assms
proof (induction cs arbitrary: s)
  case Nil
  then show ?case by simp
next
  case (Cons a cs)
  from chain_ok_Cons [OF Cons.prems(1)]
  have ok: "fst (invoke a s) = None" and rest: "fst (chain cs (snd (invoke a s))) = None" by auto
  from ok Cons.prems(2) have ne: "kind a \<noteq> lastElement s" and le: "rank (lastElement s) \<le> rank (kind a)"
    and last: "lastElement (snd (invoke a s)) = kind a"
    by (cases rule: invoke_cases [of a s]; auto)+
  from ne le have lt: "rank (lastElement s) < rank (kind a)"
    using rank_eq_kind [of "lastElement s" a] by force
  show ?case
  proof (cases "c = a")
    case True
    with ne show ?thesis by simp
  next
    case False
    with Cons.prems(3) have "c \<in> set cs" by simp
    from chain_rank_ge [OF rest this] last lt have "rank (lastElement s) < rank (kind c)" by simp
    then show ?thesis by auto
  qed
qed

lemma chain_occurrences:
  "fst (chain cs s) = None \<Longrightarrow> singleton_kind K \<Longrightarrow> occurrences K cs \<le> 1"
proof (induction cs arbitrary: s)
  case Nil
  then show ?case by (simp add: occurrences_def)
next
  case (Cons a cs)
  from chain_ok_Cons [OF Cons.prems(1)]
  have ok: "fst (invoke a s) = None" and rest: "fst (chain cs (snd (invoke a s))) = None" by auto
  from ok have last: "lastElement (snd (invoke a s)) = kind a"
    by (cases rule: invoke_cases [of a s]; simp)
  show ?case
  proof (cases "kind a = K")
    case True
    have "\<forall>c\<in>set cs. kind c \<noteq> K"
      using chain_no_repeat [OF rest] last True Cons.prems(2) by auto
    then have "filter (\<lambda>c. kind c = K) cs = []" by (simp add: filter_empty_conv)
    with True show ?thesis by (simp add: occurrences_def)
  next
    case False
    with Cons.IH [OF rest Cons.prems(2)] show ?thesis by (simp add: occurrences_def)
  qed
qed

lemma chain_succeeds:
  assumes "sorted (rank (lastElement s) # map (\<lambda>c. rank (kind c)) cs)"
    and "\<forall>c\<in>set cs. singleton_kind (kind c) \<longrightarrow> kind c \<noteq> lastElement s \<and> occurrences (kind c) cs \<le> 1"
  shows "fst (chain cs s) = None"
  using assms
proof (induction cs arbitrary: s)
  case Nil
  then show ?case by simp
next
  case (Cons a cs)
  from Cons.prems(1) have le: "rank (lastElement s) \<le> rank (kind a)" by simp
  from Cons.prems(2) have nd: "singleton_kind (kind a) \<longrightarrow> kind a \<noteq> lastElement s" by simp
  from le nd have ok: "fst (invoke a s) = None" and last: "lastElement (snd (invoke a s)) = kind a"
    by (cases rule: invoke_cases [of a s]; auto)+
  have s1: "sorted (rank (lastElement (snd (invoke a s))) # map (\<lambda>c. rank (kind c)) cs)"
    using Cons.prems(1) by (simp add: last)
  have s2: "\<forall>c\<in>set cs. singleton_kind (kind c) \<longrightarrow>
              kind c \<noteq> lastElement (snd (invoke a s)) \<and> occurrences (kind c) cs \<le> 1"
  proof (intro ballI impI)
    fix c assume c: "c \<in> set cs" and sk: "singleton_kind (kind c)"
    from Cons.prems(2) c sk have occ: "occurrences (kind c) (a # cs) \<le> 1" by simp
    from c have "filter (\<lambda>x. kind x = kind c) cs \<noteq> []" by (auto simp: filter_empty_conv)
    then have pos: "1 \<le> occurrences (kind c) cs" by (cases "filter (\<lambda>x. kind x = kind c) cs") (auto simp: occurrences_def)
    from occ pos have "kind a \<noteq> kind c" by (auto simp: occurrences_def)
    moreover from occ have "occurrences (kind c) cs \<le> 1" by (auto simp: occurrences_def split: if_splits)
    ultimately show "kind c \<noteq> lastElement (snd (invoke a s)) \<and> occurrences (kind c) cs \<le> 1"
      using last by simp
  qed
  from Cons.IH [OF s1 s2] show ?case by (simp only: chain_Cons_ok [OF ok])
qed


section \<open>The settings after a chain\<close>

lemma chain_list_field:
  assumes step: "\<And>c s. fst (invoke c s) = None \<Longrightarrow>
      f (settings (snd (invoke c s))) = f (settings s) @ (if kind c = K then [fragment c] else [])"
  shows "chain cs s = (None, s') \<Longrightarrow>
      f (settings s') = f (settings s) @ map fragment (filter (\<lambda>c. kind c = K) cs)"
proof (induction cs arbitrary: s)
  case Nil
  then show ?case by simp
next
  case (Cons a cs)
  from chain_Some_Cons [OF Cons.prems]
  have ok: "fst (invoke a s) = None" and rest: "chain cs (snd (invoke a s)) = (None, s')" by auto
  from Cons.IH [OF rest] step [OF ok] show ?case by simp
qed

lemma chain_single_field:
  assumes step: "\<And>c s. fst (invoke c s) = None \<Longrightarrow>
      f (settings (snd (invoke c s))) = (if kind c = K then Some (fragment c) else f (settings s))"
  shows "chain cs s = (None, s') \<Longrightarrow>
      f (settings s') =
        (case filter (\<lambda>c. kind c = K) cs of [] \<Rightarrow> f (settings s) | x # xs \<Rightarrow> Some (fragment (last (x # xs))))"
proof (induction cs arbitrary: s)
  case Nil
  then show ?case by simp
next
  case (Cons a cs)
  from chain_Some_Cons [OF Cons.prems]
  have ok: "fst (invoke a s) = None" and rest: "chain cs (snd (invoke a s)) = (None, s')" by auto
  from Cons.IH [OF rest] step [OF ok] show ?case by (simp split: list.splits)
qed

lemma chain_class:
  "chain cs s = (None, s') \<Longrightarrow>
   class' (settings s') = class' (settings s) @ map fragment (filter (\<lambda>c. kind c = ''class'') cs)"
  by (rule chain_list_field) (auto simp: invoke_settings split: call.splits)

lemma chain_attr:
  "chain cs s = (None, s') \<Longrightarrow>
   attr (settings s') = attr (settings s) @ map fragment (filter (\<lambda>c. kind c = ''attr'') cs)"
  by (rule chain_list_field) (auto simp: invoke_settings split: call.splits)

lemma chain_pseudoClass:
  "chain cs s = (None, s') \<Longrightarrow>
   pseudoClass (settings s') = pseudoClass (settings s) @ map fragment (filter (\<lambda>c. kind c = ''pseudoClass'') cs)"
  by (rule chain_list_field) (auto simp: invoke_settings split: call.splits)

lemma chain_element:
  "chain cs s = (None, s') \<Longrightarrow>
   element (settings s') =
     (case filter (\<lambda>c. kind c = ''element'') cs of [] \<Rightarrow> element (settings s) | x # xs \<Rightarrow> Some (fragment (last (x # xs))))"
  by (rule chain_single_field) (auto simp: invoke_settings split: call.splits)

lemma chain_id:
  "chain cs s = (None, s') \<Longrightarrow>
   id' (settings s') =
     (case filter (\<lambda>c. kind c = ''id'') cs of [] \<Rightarrow> id' (settings s) | x # xs \<Rightarrow> Some (fragment (last (x # xs))))"
  by (rule chain_single_field) (auto simp: invoke_settings split: call.splits)

lemma chain_pseudoElement:
  "chain cs s = (None, s') \<Longrightarrow>
   pseudoElement (settings s') =
     (case filter (\<lambda>c. kind c = ''pseudoElement'') cs of [] \<Rightarrow> pseudoElement (settings s) | x # xs \<Rightarrow> Some (fragment (last (x # xs))))"
  by (rule chain_single_field) (auto simp: invoke_settings split: call.splits)


section \<open>The rendering loop\<close>

lemma or_empty_not_Null: "or_empty v \<noteq> Null"
  by (cases v) (simp_all add: or_empty_def)

lemma reduce_wrap:
  "reduce xs (\<lambda>prev current. prev @ b @ current @ a) acc = acc @ concat (map (\<lambda>current. b @ current @ a) xs)"
  unfolding reduce_def by (induction xs arbitrary: acc) simp_all

lemma upt_before: "[0 ..< length before_arr] = [0, 1, 2, 3, 4, 5]"
  by (simp add: before_arr_def upt_rec)

lemma step_nullable:
  "as_array (or_empty (of_nullable v)) = (case v of None \<Rightarrow> [] | Some s \<Rightarrow> if s = [] then [] else [s])"
  by (simp add: as_array_def or_empty_def of_nullable_def split: option.splits)

lemma step_general:
  "stringify_step d i str =
     str @ concat (map (\<lambda>current. before_arr ! i @ current @ after_arr ! i)
                    (as_array (or_empty (Object_values d ! i))))"
  by (simp add: stringify_step_def reduce_wrap)

lemma step_0: "stringify_step d 0 str = str @ nullable_part [] (element d)"
  by (simp add: step_general Object_values_def step_nullable before_arr_def
      after_arr_def nullable_part_def split: option.splits)

lemma step_1: "stringify_step d (Suc 0) str = str @ nullable_part ''#'' (id' d)"
  by (simp add: step_general Object_values_def step_nullable before_arr_def
      after_arr_def nullable_part_def split: option.splits)

lemma step_2: "stringify_step d 2 str = str @ concat (map (\<lambda>v. ''.'' @ v) (class' d))"
  by (simp add: step_general Object_values_def as_array_def or_empty_def
      before_arr_def after_arr_def)

lemma step_3: "stringify_step d 3 str = str @ concat (map (\<lambda>v. ''['' @ v @ '']'') (attr d))"
  by (simp add: step_general Object_values_def as_array_def or_empty_def
      before_arr_def after_arr_def)

lemma step_4: "stringify_step d 4 str = str @ concat (map (\<lambda>v. '':'' @ v) (pseudoClass d))"
  by (simp add: step_general Object_values_def as_array_def or_empty_def
      before_arr_def after_arr_def)

lemma step_5: "stringify_step d 5 str = str @ nullable_part ''::'' (pseudoElement d)"
  by (simp add: step_general Object_values_def step_nullable before_arr_def
      after_arr_def nullable_part_def split: option.splits)

text \<open>
  The loop, unrolled: the six contributions in the order of the keys of \<^verbatim>\<open>settings\<close>.
\<close>

lemma stringify_closed:
  "fst (CreateSelector_stringify this) =
     nullable_part [] (element (settings this)) @ nullable_part ''#'' (id' (settings this))
     @ concat (map (\<lambda>v. ''.'' @ v) (class' (settings this)))
     @ concat (map (\<lambda>v. ''['' @ v @ '']'') (attr (settings this)))
     @ concat (map (\<lambda>v. '':'' @ v) (pseudoClass (settings this)))
     @ nullable_part ''::'' (pseudoElement (settings this))"
  by (simp add: CreateSelector_stringify_def Let_def upt_before step_0 step_1 step_2 step_3 step_4 step_5)

lemma stringify_returns_receiver:
  "CreateSelector_stringify this = (str, this') \<Longrightarrow> this' = this"
  by (simp add: CreateSelector_stringify_def Let_def)

lemma stringify_unchanged: "snd (stringify s) = s"
  by (induction s) (auto split: prod.splits dest: stringify_returns_receiver)

lemma stringify_Selector: "fst (stringify (Selector c)) = fst (CreateSelector_stringify c)"
  by (simp split: prod.splits)

lemma stringify_Combinator:
  "fst (stringify (Combinator l t r)) = fst (stringify l) @ '' '' @ t @ '' '' @ fst (stringify r)"
  by (simp split: prod.splits)


section \<open>The rendering of a built selector\<close>

lemma list_part:
  assumes "\<And>c. kind c = K \<Longrightarrow> rendered c = g (fragment c)"
  shows "concat (map rendered (filter (\<lambda>c. kind c = K) cs)) = concat (map g (map fragment (filter (\<lambda>c. kind c = K) cs)))"
  using assms by (induction cs) simp_all

lemma single_part:
  assumes r: "\<And>c. kind c = K \<Longrightarrow> rendered c = nullable_part b (Some (fragment c))"
    and occ: "occurrences K cs \<le> 1"
  shows "nullable_part b (case filter (\<lambda>c. kind c = K) cs of [] \<Rightarrow> None | x # xs \<Rightarrow> Some (fragment (last (x # xs))))
         = concat (map rendered (filter (\<lambda>c. kind c = K) cs))"
proof (cases "filter (\<lambda>c. kind c = K) cs")
  case Nil
  then show ?thesis by (simp add: nullable_part_def)
next
  case (Cons x xs)
  with occ have xs: "xs = []" by (simp add: occurrences_def)
  from Cons have "x \<in> set (filter (\<lambda>c. kind c = K) cs)" by simp
  then have "kind x = K" by simp
  from r [OF this] Cons xs show ?thesis by simp
qed

lemma rendered_simps:
  "rendered (Element v) = nullable_part [] (Some v)"
  "rendered (Id' v) = nullable_part ''#'' (Some v)"
  "rendered (Class v) = ''.'' @ v"
  "rendered (Attr v) = ''['' @ v @ '']''"
  "rendered (PseudoClass v) = '':'' @ v"
  "rendered (PseudoElement v) = nullable_part ''::'' (Some v)"
  by (simp_all add: rendered_def singleton_kind_def nullable_part_def)

lemma rendered_kind:
  "kind c = ''element'' \<Longrightarrow> rendered c = nullable_part [] (Some (fragment c))"
  "kind c = ''id'' \<Longrightarrow> rendered c = nullable_part ''#'' (Some (fragment c))"
  "kind c = ''class'' \<Longrightarrow> rendered c = ''.'' @ fragment c"
  "kind c = ''attr'' \<Longrightarrow> rendered c = ''['' @ fragment c @ '']''"
  "kind c = ''pseudoClass'' \<Longrightarrow> rendered c = '':'' @ fragment c"
  "kind c = ''pseudoElement'' \<Longrightarrow> rendered c = nullable_part ''::'' (Some (fragment c))"
  by (cases c; simp add: rendered_simps)+

lemma grouped_unfold:
  "grouped_stringify cs =
     concat (map rendered (filter (\<lambda>c. kind c = ''element'') cs))
   @ concat (map rendered (filter (\<lambda>c. kind c = ''id'') cs))
   @ concat (map rendered (filter (\<lambda>c. kind c = ''class'') cs))
   @ concat (map rendered (filter (\<lambda>c. kind c = ''attr'') cs))
   @ concat (map rendered (filter (\<lambda>c. kind c = ''pseudoClass'') cs))
   @ concat (map rendered (filter (\<lambda>c. kind c = ''pseudoElement'') cs))"
  by (simp add: grouped_stringify_def positionsElements_def)

lemma singleton_kinds:
  "singleton_kind ''element''" "singleton_kind ''id''" "singleton_kind ''pseudoElement''"
  by (simp_all add: singleton_kind_def)

lemma built_stringify:
  assumes built: "chain cs CreateSelector_constructor = (None, s)"
  shows "fst (CreateSelector_stringify s) = grouped_stringify cs"
proof -
  from built have ok: "fst (chain cs CreateSelector_constructor) = None" by simp
  have e: "nullable_part [] (element (settings s)) = concat (map rendered (filter (\<lambda>c. kind c = ''element'') cs))"
  proof -
    have "element (settings s) =
        (case filter (\<lambda>c. kind c = ''element'') cs of [] \<Rightarrow> None | x # xs \<Rightarrow> Some (fragment (last (x # xs))))"
      using chain_element [OF built] by (simp add: CreateSelector_constructor_def split: list.splits)
    then show ?thesis
      using single_part [OF rendered_kind(1) chain_occurrences [OF ok singleton_kinds(1)]] by simp
  qed
  have i: "nullable_part ''#'' (id' (settings s)) = concat (map rendered (filter (\<lambda>c. kind c = ''id'') cs))"
  proof -
    have "id' (settings s) =
        (case filter (\<lambda>c. kind c = ''id'') cs of [] \<Rightarrow> None | x # xs \<Rightarrow> Some (fragment (last (x # xs))))"
      using chain_id [OF built] by (simp add: CreateSelector_constructor_def split: list.splits)
    then show ?thesis
      using single_part [OF rendered_kind(2) chain_occurrences [OF ok singleton_kinds(2)]] by simp
  qed
  have p: "nullable_part ''::'' (pseudoElement (settings s)) = concat (map rendered (filter (\<lambda>c. kind c = ''pseudoElement'') cs))"
  proof -
    have "pseudoElement (settings s) =
        (case filter (\<lambda>c. kind c = ''pseudoElement'') cs of [] \<Rightarrow> None | x # xs \<Rightarrow> Some (fragment (last (x # xs))))"
      using chain_pseudoElement [OF built] by (simp add: CreateSelector_constructor_def split: list.splits)
    then show ?thesis
      using single_part [OF rendered_kind(6) chain_occurrences [OF ok singleton_kinds(3)]] by simp
  qed
  have c: "concat (map (\<lambda>v. ''.'' @ v) (class' (settings s))) = concat (map rendered (filter (\<lambda>c. kind c = ''class'') cs))"
    using chain_class [OF built] list_part [where K = "''class''" and g = "\<lambda>v. ''.'' @ v" and cs = cs, OF rendered_kind(3)]
    by (simp add: CreateSelector_constructor_def)
  have a: "concat (map (\<lambda>v. ''['' @ v @ '']'') (attr (settings s))) = concat (map rendered (filter (\<lambda>c. kind c = ''attr'') cs))"
    using chain_attr [OF built] list_part [where K = "''attr''" and g = "\<lambda>v. ''['' @ v @ '']''" and cs = cs, OF rendered_kind(4)]
    by (simp add: CreateSelector_constructor_def)
  have pc: "concat (map (\<lambda>v. '':'' @ v) (pseudoClass (settings s))) = concat (map rendered (filter (\<lambda>c. kind c = ''pseudoClass'') cs))"
    using chain_pseudoClass [OF built] list_part [where K = "''pseudoClass''" and g = "\<lambda>v. '':'' @ v" and cs = cs, OF rendered_kind(5)]
    by (simp add: CreateSelector_constructor_def)
  show ?thesis
    unfolding stringify_closed grouped_unfold e i p c a pc ..
qed

lemma grouped_eq_spec:
  "\<forall>c\<in>set cs. rendered c = decorated c \<Longrightarrow> grouped_stringify cs = spec_stringify cs"
  unfolding grouped_stringify_def spec_stringify_def
  by (intro arg_cong [where f = concat] map_cong refl) simp


section \<open>The JSON round trip\<close>

subsection \<open>Strings\<close>







subsection \<open>The first character of a text\<close>



lemma skip_whitespace_punct [simp]:
  "skip_whitespace (CHR '','' # s) = CHR '','' # s"
  "skip_whitespace (CHR '']'' # s) = CHR '']'' # s"
  "skip_whitespace (CHR ''}'' # s) = CHR ''}'' # s"
  "skip_whitespace (CHR '':'' # s) = CHR '':'' # s"
  "skip_whitespace (CHR 0x22 # s) = CHR 0x22 # s"
  "skip_whitespace [] = []"
  by (simp_all add: skip_whitespace_def is_whitespace_def)

lemma delimited_punct [simp]:
  "delimited (CHR '','' # s)" "delimited (CHR '']'' # s)" "delimited (CHR ''}'' # s)" "delimited []"
  by (simp_all add: delimited_def is_number_char_def)




subsection \<open>Sequences of elements and members\<close>







subsection \<open>The text of a value is read back as its data\<close>






subsection \<open>The text of integers\<close>

declare show_nat.simps [simp del]












subsection \<open>Reading back what \<^verbatim>\<open>getJSON\<close> wrote\<close>




text \<open>
  The examples of the two docstrings: \<^verbatim>\<open>[1,2,3]\<close> is written as \<^verbatim>\<open>[1,2,3]\<close>, and
  \<^verbatim>\<open>fromJSON(Circle.prototype, '{"radius":10}')\<close> is a circle of radius 10. White space
  between the tokens of a text is passed over, and a text that is no JSON text, or that
  goes on after its value, is a SyntaxError.
\<close>

lemma docstring_examples:
  "getJSON show_int
     (JS_array Array_prototype [JS_number 1, JS_number 2, JS_number 3] :: (int, string) js_value)
     = ''[1,2,3]''
   \<and> fromJSON read_int (Behaviour ''Circle'') ''{\"radius\":10}''
       = (Inr (JS_object (Behaviour ''Circle'') [(''radius'', JS_number 10)])
            :: exception + (int, string) js_value)
   \<and> fromJSON read_int (Behaviour ''Circle'') '' { \"radius\" : 10 , \"tags\" : [ ] } ''
       = (Inr (JS_object (Behaviour ''Circle'') [(''radius'', JS_number 10), (''tags'', JS_array Array_prototype [])])
            :: exception + (int, string) js_value)
   \<and> fromJSON read_int (Behaviour ''Circle'') ''{\"radius\":10,}''
       = (Inl SyntaxError :: exception + (int, string) js_value)
   \<and> fromJSON read_int (Behaviour ''Circle'') ''{\"radius\":10} x''
       = (Inl SyntaxError :: exception + (int, string) js_value)"
  by code_simp


section \<open>The claims\<close>

subsection \<open>Rectangle\<close>

text \<open>
  C10. For all numbers \<open>w\<close> and \<open>h\<close>, \<open>Rectangle w h\<close> is an object whose width field is
  \<open>w\<close>, whose height field is \<open>h\<close> and whose \<open>getArea()\<close> returns \<open>w * h\<close>; the constructor
  is among the names the module exports.
\<close>

theorem Rectangle_fields_and_area:
  "width (Rectangle w h) = w \<and> height (Rectangle w h) = h
   \<and> getArea (Rectangle w h) = w * h
   \<and> ''Rectangle'' \<in> set module_exports"
  by (simp add: Rectangle_def getArea_def module_exports_def)


subsection \<open>The JSON helpers\<close>





subsection \<open>The ordering check\<close>

text \<open>
  C1. For a selector in any state and any fragment-adding call \<open>c\<close> of category
  \<open>K = kind c\<close>, where the rank of \<open>K\<close> is its index in the fixed list and the constructor
  leaves \<open>lastElement\<close> at a value ranking below every category: the call throws the order
  error when \<open>rank K < rank lastElement\<close>; it throws the duplicate error when \<open>K\<close> is
  element, id or pseudo-element and \<open>rank K = rank lastElement\<close>; otherwise it returns, has
  set \<open>lastElement\<close> to \<open>K\<close>, and the rest of a chain goes on with the same selector.
  The two errors are told apart by their messages.
\<close>

theorem position_transition:
  "(rank (kind c) < rank (lastElement this) \<longrightarrow>
      invoke c this = (Some (Error order_message), this))
   \<and> (singleton_kind (kind c) \<and> rank (kind c) = rank (lastElement this) \<longrightarrow>
      invoke c this = (Some (Error duplicate_message), this))
   \<and> (\<not> rank (kind c) < rank (lastElement this)
        \<and> \<not> (singleton_kind (kind c) \<and> rank (kind c) = rank (lastElement this)) \<longrightarrow>
      fst (invoke c this) = None \<and> lastElement (snd (invoke c this)) = kind c
      \<and> chain (c # cs) this = chain cs (snd (invoke c this)))
   \<and> 0 \<le> rank (kind c) \<and> positionsElements ! nat (rank (kind c)) = kind c
   \<and> rank (lastElement CreateSelector_constructor) < rank (kind c)
   \<and> Error order_message \<noteq> Error duplicate_message"
proof -
  have "rank (lastElement CreateSelector_constructor) = - 1"
    by (simp add: CreateSelector_constructor_def rank_unfold)
  then have "rank (lastElement CreateSelector_constructor) < rank (kind c)"
    using rank_kind_nonneg [of c] by simp
  moreover have "Error order_message \<noteq> Error duplicate_message"
    by (simp add: order_message_def duplicate_message_def)
  ultimately show ?thesis
    using invoke_order [of c this] invoke_duplicate [of c this] invoke_ok [of c this]
      rank_kind_nonneg [of c] nth_rank_kind [of c]
    by (simp del: chain.simps add: chain_Cons_ok)
qed

theorem position_transition_witness:
  "invoke (Element ''b'') (snd (cssSelectorBuilder_id ''a'')) = (Some (Error order_message), snd (cssSelectorBuilder_id ''a''))
   \<and> invoke (Id' ''b'') (snd (cssSelectorBuilder_id ''a'')) = (Some (Error duplicate_message), snd (cssSelectorBuilder_id ''a''))
   \<and> fst (invoke (Class ''b'') (snd (cssSelectorBuilder_id ''a''))) = None
   \<and> lastElement (snd (invoke (Class ''b'') (snd (cssSelectorBuilder_id ''a'')))) = ''class''"
proof -
  have l: "lastElement (snd (cssSelectorBuilder_id ''a'')) = ''id''"
    by (simp add: cssSelectorBuilder_id_def CreateSelector_id_def position_rank CreateSelector_constructor_def
        rank_unfold singleton_kind_def)
  show ?thesis
    using position_transition [of "Element ''b''" "snd (cssSelectorBuilder_id ''a'')"]
      position_transition [of "Id' ''b''" "snd (cssSelectorBuilder_id ''a'')"]
      position_transition [of "Class ''b''" "snd (cssSelectorBuilder_id ''a'')"]
    by (simp add: l rank_unfold singleton_kind_def)
qed

text \<open>
  C6. Adding a fragment whose category ranks below that of the fragment added before it
  throws the order error at once: the selector is left as it was and no later call of the
  chain is made. The message of the error names the required order: element, id, class,
  attribute, pseudo-class, pseudo-element. The witness is \<open>id('a').element('b')\<close>.
\<close>

theorem lower_rank_throws:
  "(rank (kind c) < rank (lastElement this) \<longrightarrow>
      invoke c this = (Some (Error order_message), this)
      \<and> chain (c # rest) this = (Some (Error order_message), this))
   \<and> (fst (chain pre CreateSelector_constructor) = None \<and> pre \<noteq> []
        \<and> rank (kind c) < rank (kind (last pre)) \<longrightarrow>
      chain (pre @ c # rest) CreateSelector_constructor
        = (Some (Error order_message), snd (chain pre CreateSelector_constructor)))
   \<and> order_message = ''Selector parts should be arranged in the following order: ''
        @ ''element, id, class, attribute, pseudo-class, pseudo-element''"
proof (intro conjI impI)
  assume lt: "rank (kind c) < rank (lastElement this)"
  from invoke_order [OF this] show i: "invoke c this = (Some (Error order_message), this)" .
  then show "chain (c # rest) this = (Some (Error order_message), this)" by simp
next
  assume h: "fst (chain pre CreateSelector_constructor) = None \<and> pre \<noteq> []
        \<and> rank (kind c) < rank (kind (last pre))"
  then obtain s where run: "chain pre CreateSelector_constructor = (None, s)"
    by (cases "chain pre CreateSelector_constructor") auto
  from chain_lastElement [OF run] h have "rank (kind c) < rank (lastElement s)" by simp
  from invoke_order [OF this] have step: "invoke c s = (Some (Error order_message), s)" .
  show "chain (pre @ c # rest) CreateSelector_constructor
        = (Some (Error order_message), snd (chain pre CreateSelector_constructor))"
    by (simp add: chain_append run step)
next
  show "order_message = ''Selector parts should be arranged in the following order: ''
        @ ''element, id, class, attribute, pseudo-class, pseudo-element''"
    by (simp add: order_message_def)
qed

theorem lower_rank_throws_witness:
  "chain [Id' ''a'', Element ''b''] CreateSelector_constructor
     = (Some (Error order_message), snd (cssSelectorBuilder_id ''a''))
   \<and> invoke (Element ''b'') (snd (cssSelectorBuilder_id ''a'')) = (Some (Error order_message), snd (cssSelectorBuilder_id ''a''))"
proof -
  have s: "snd (chain [Id' ''a''] CreateSelector_constructor) = snd (cssSelectorBuilder_id ''a'')"
    by (simp add: cssSelectorBuilder_id_def split: prod.splits option.splits)
  have 1: "fst (chain [Id' ''a''] CreateSelector_constructor) = None \<and> [Id' ''a''] \<noteq> []
        \<and> rank (kind (Element ''b'')) < rank (kind (last [Id' ''a'']))"
    by (simp add: run_simps)
  have 2: "rank (kind (Element ''b'')) < rank (lastElement (snd (cssSelectorBuilder_id ''a'')))"
    by (simp add: run_simps cssSelectorBuilder_id_def)
  from lower_rank_throws [of "Element ''b''" "snd (cssSelectorBuilder_id ''a'')" "[]" "[Id' ''a'']"] 1 2 s
  show ?thesis by simp
qed

text \<open>
  C5, as the code has it. When a chain on a fresh selector has added an element, an id or
  a pseudo-element, and a later call adds the same category again, that call throws and
  leaves the selector as it was: the duplicate error when it follows the first addition
  directly, the order error when calls of other categories came in between. (The claim
  as stated promises the duplicate error whatever comes in between.) The witness holds
  \<open>id('a').id('b')\<close>.
\<close>

theorem second_singleton_fails:
  assumes single: "singleton_kind (kind c)"
    and first: "fst (chain pre CreateSelector_constructor) = None"
    and seen: "\<exists>c'\<in>set pre. kind c' = kind c"
  shows "chain (pre @ c # rest) CreateSelector_constructor =
           (Some (Error (if kind (last pre) = kind c then duplicate_message else order_message)),
            snd (chain pre CreateSelector_constructor))"
proof -
  from seen obtain c' where c': "c' \<in> set pre" "kind c' = kind c" by blast
  then have ne: "pre \<noteq> []" by auto
  from first obtain s where run: "chain pre CreateSelector_constructor = (None, s)"
    by (cases "chain pre CreateSelector_constructor") auto
  from chain_lastElement [OF run ne] have last: "lastElement s = kind (last pre)" .
  have step: "invoke c s = (Some (Error (if kind (last pre) = kind c then duplicate_message else order_message)), s)"
  proof (cases "kind (last pre) = kind c")
    case True
    with last have "rank (kind c) = rank (lastElement s)" by simp
    from invoke_duplicate [OF single this] True show ?thesis by simp
  next
    case False
    from sorted_last_ge [OF chain_sorted [OF first] c'(1)] c'(2)
    have "rank (kind c) \<le> rank (kind (last pre))" by simp
    moreover have "rank (kind c) \<noteq> rank (kind (last pre))"
      using rank_eq_kind [of "kind (last pre)" c] False by auto
    ultimately have "rank (kind c) < rank (lastElement s)" using last by simp
    from invoke_order [OF this] False show ?thesis by simp
  qed
  show ?thesis
    by (simp add: chain_append run step)
qed

theorem second_singleton_fails_witness:
  "chain [Id' ''a'', Id' ''b''] CreateSelector_constructor
     = (Some (Error duplicate_message), snd (chain [Id' ''a''] CreateSelector_constructor))
   \<and> chain [Element ''a'', Class ''b'', Element ''c'', Class ''d''] CreateSelector_constructor
     = (Some (Error order_message), snd (chain [Element ''a'', Class ''b''] CreateSelector_constructor))"
proof -
  have 1: "singleton_kind (kind (Id' ''b''))" "singleton_kind (kind (Element ''c''))"
    by (simp_all add: singleton_kind_def)
  have 2: "fst (chain [Id' ''a''] CreateSelector_constructor) = None"
    "fst (chain [Element ''a'', Class ''b''] CreateSelector_constructor) = None"
    by (simp_all add: run_simps)
  have 3: "\<exists>c'\<in>set [Id' ''a'']. kind c' = kind (Id' ''b'')"
    "\<exists>c'\<in>set [Element ''a'', Class ''b'']. kind c' = kind (Element ''c'')"
    by simp_all
  from second_singleton_fails [OF 1(1) 2(1) 3(1), of "[]"]
    second_singleton_fails [OF 1(2) 2(2) 3(2), of "[Class ''d'']"]
  show ?thesis by simp
qed

text \<open>
  Against C5 as stated: in \<open>id('a').class('b').id('c')\<close> the second id is rejected with the
  order error, which is not the duplicate error.
\<close>

theorem id_class_id_counterexample:
  "fst (chain [Id' ''a'', Class ''b''] CreateSelector_constructor) = None
   \<and> fst (chain [Id' ''a'', Class ''b'', Id' ''c''] CreateSelector_constructor) = Some (Error order_message)
   \<and> Error order_message \<noteq> Error duplicate_message"
  by (simp add: run_simps order_message_def duplicate_message_def)


subsection \<open>Construction and rendering\<close>

text \<open>
  C4, as the code has it. A sequence of fragment-adding calls on a fresh selector whose
  category ranks never decrease, and in which element, id and pseudo-element occur at most
  once each, runs without an error, and \<open>stringify()\<close> then gives the fragments grouped by
  category in the fixed order, those of one category in the order of their calls. (The
  claim as stated asks for non-decreasing ranks only.) The witness is
  \<open>id('main').class('container').class('editable')\<close>.
\<close>

theorem ordered_calls_build:
  assumes "sorted (map (\<lambda>c. rank (kind c)) cs)"
    and "occurrences ''element'' cs \<le> 1"
    and "occurrences ''id'' cs \<le> 1"
    and "occurrences ''pseudoElement'' cs \<le> 1"
  shows "fst (chain cs CreateSelector_constructor) = None
         \<and> fst (CreateSelector_stringify (snd (chain cs CreateSelector_constructor))) = grouped_stringify cs"
proof -
  have "rank (lastElement CreateSelector_constructor) = - 1"
    by (simp add: CreateSelector_constructor_def rank_unfold)
  then have s: "sorted (rank (lastElement CreateSelector_constructor) # map (\<lambda>c. rank (kind c)) cs)"
    using assms(1) rank_kind_nonneg by (auto intro: order_trans [of "- 1" 0])
  have n: "\<forall>c\<in>set cs. singleton_kind (kind c) \<longrightarrow>
             kind c \<noteq> lastElement CreateSelector_constructor \<and> occurrences (kind c) cs \<le> 1"
    using assms(2-4) by (auto simp: singleton_kind_def CreateSelector_constructor_def)
  from chain_succeeds [OF s n] have ok: "fst (chain cs CreateSelector_constructor) = None" .
  from built_stringify [OF chain_result [OF ok]] ok show ?thesis by simp
qed

theorem ordered_calls_build_witness:
  "fst (chain [Id' ''main'', Class ''container'', Class ''editable''] CreateSelector_constructor) = None
   \<and> fst (CreateSelector_stringify
        (snd (chain [Id' ''main'', Class ''container'', Class ''editable''] CreateSelector_constructor)))
      = ''#main.container.editable''"
proof -
  let ?cs = "[Id' ''main'', Class ''container'', Class ''editable'']"
  have s: "sorted (map (\<lambda>c. rank (kind c)) ?cs)" by (simp add: rank_unfold)
  have o: "occurrences ''element'' ?cs \<le> 1" "occurrences ''id'' ?cs \<le> 1"
    "occurrences ''pseudoElement'' ?cs \<le> 1"
    by (simp_all add: occurrences_def)
  have g: "grouped_stringify ?cs = ''#main.container.editable''"
    by (simp add: grouped_stringify_def positionsElements_def rendered_def singleton_kind_def)
  from ordered_calls_build [OF s o] g show ?thesis by (simp only: simp_thms)
qed

text \<open>
  Against C4 as stated: the ranks of \<open>element('a').element('b')\<close> do not decrease, and the
  second call throws.
\<close>

theorem repeated_element_counterexample:
  "sorted (map (\<lambda>c. rank (kind c)) [Element ''a'', Element ''b''])
   \<and> chain [Element ''a''] CreateSelector_constructor = (None, snd (cssSelectorBuilder_element ''a''))
   \<and> chain [Element ''a'', Element ''b''] CreateSelector_constructor
       = (Some (Error duplicate_message), snd (cssSelectorBuilder_element ''a''))"
  by (simp add: run_simps cssSelectorBuilder_element_def)

text \<open>
  C2, as the code has it. For a selector built by a chain of calls that ran without an
  error, \<open>stringify()\<close> returns the concatenation, category by category in the fixed order
  and within a category in insertion order, of every fragment with the decoration of its
  category, with no separator, except that an element, id or pseudo-element given as the
  empty string adds nothing; when no such fragment is empty, this is the rendering the
  specification describes. The witness is
  \<open>element('a').attr('href$=".png"').pseudoClass('focus')\<close>.
\<close>

theorem stringify_of_built:
  "fst (chain cs CreateSelector_constructor) = None \<Longrightarrow>
   fst (CreateSelector_stringify (snd (chain cs CreateSelector_constructor))) = grouped_stringify cs
   \<and> ((\<forall>c\<in>set cs. singleton_kind (kind c) \<longrightarrow> fragment c \<noteq> []) \<longrightarrow>
        fst (CreateSelector_stringify (snd (chain cs CreateSelector_constructor))) = spec_stringify cs)"
proof (intro conjI impI)
  assume "fst (chain cs CreateSelector_constructor) = None"
  then have "chain cs CreateSelector_constructor = (None, snd (chain cs CreateSelector_constructor))"
    by (rule chain_result)
  then show g: "fst (CreateSelector_stringify (snd (chain cs CreateSelector_constructor))) = grouped_stringify cs"
    by (rule built_stringify)
  assume "\<forall>c\<in>set cs. singleton_kind (kind c) \<longrightarrow> fragment c \<noteq> []"
  then have "\<forall>c\<in>set cs. rendered c = decorated c"
    by (auto simp: rendered_def)
  from grouped_eq_spec [OF this] g
  show "fst (CreateSelector_stringify (snd (chain cs CreateSelector_constructor))) = spec_stringify cs"
    by simp
qed

theorem stringify_of_built_witness:
  "fst (chain [Element ''a'', Attr ''href$=\".png\"'', PseudoClass ''focus''] CreateSelector_constructor) = None
   \<and> fst (CreateSelector_stringify
        (snd (chain [Element ''a'', Attr ''href$=\".png\"'', PseudoClass ''focus''] CreateSelector_constructor)))
      = ''a[href$=\".png\"]:focus''"
proof -
  let ?cs = "[Element ''a'', Attr ''href$=\".png\"'', PseudoClass ''focus'']"
  have ok: "fst (chain ?cs CreateSelector_constructor) = None"
    by (simp add: run_simps)
  have h: "\<forall>c\<in>set ?cs. singleton_kind (kind c) \<longrightarrow> fragment c \<noteq> []"
    by simp
  have sp: "spec_stringify ?cs = ''a[href$=\".png\"]:focus''"
    by (simp add: spec_stringify_def positionsElements_def)
  from stringify_of_built [OF ok] h
  have "fst (CreateSelector_stringify (snd (chain ?cs CreateSelector_constructor))) = spec_stringify ?cs"
    by blast
  with ok sp show ?thesis by (simp only: simp_thms)
qed

text \<open>
  Against C2 as stated: \<open>id('')\<close> builds a selector whose id fragment is present, the
  specification renders it as \<open>#\<close>, and \<open>stringify()\<close> returns the empty string.
\<close>

theorem empty_id_counterexample:
  "fst (chain [Id' ''''] CreateSelector_constructor) = None
   \<and> fst (CreateSelector_stringify (snd (chain [Id' ''''] CreateSelector_constructor))) = ''''
   \<and> spec_stringify [Id' ''''] = ''#''"
  by (simp add: run_simps stringify_closed nullable_part_def spec_stringify_def positionsElements_def)

text \<open>
  C9. When element, id or pseudo-element is set to the empty string, \<open>stringify()\<close> returns
  what it would return were that property not set at all: neither the fragment nor its
  decoration appears. An empty string added as class, attribute or pseudo-class still
  adds its decoration to the output: \<open>.\<close>, \<open>[]\<close> and \<open>:\<close>.
\<close>

theorem empty_string_fragments:
  "(fst (CreateSelector_element '''' this) = None \<longrightarrow>
      fst (CreateSelector_stringify (snd (CreateSelector_element '''' this)))
        = fst (CreateSelector_stringify (this\<lparr>settings := (settings this)\<lparr>element := None\<rparr>\<rparr>)))
   \<and> (fst (CreateSelector_id '''' this) = None \<longrightarrow>
      fst (CreateSelector_stringify (snd (CreateSelector_id '''' this)))
        = fst (CreateSelector_stringify (this\<lparr>settings := (settings this)\<lparr>id' := None\<rparr>\<rparr>)))
   \<and> (fst (CreateSelector_pseudoElement '''' this) = None \<longrightarrow>
      fst (CreateSelector_stringify (snd (CreateSelector_pseudoElement '''' this)))
        = fst (CreateSelector_stringify (this\<lparr>settings := (settings this)\<lparr>pseudoElement := None\<rparr>\<rparr>)))
   \<and> (fst (CreateSelector_class '''' this) = None \<longrightarrow>
      stringify_step (settings (snd (CreateSelector_class '''' this))) 2 str
        = stringify_step (settings this) 2 str @ ''.'')
   \<and> (fst (CreateSelector_attr '''' this) = None \<longrightarrow>
      stringify_step (settings (snd (CreateSelector_attr '''' this))) 3 str
        = stringify_step (settings this) 3 str @ ''[]'')
   \<and> (fst (CreateSelector_pseudoClass '''' this) = None \<longrightarrow>
      stringify_step (settings (snd (CreateSelector_pseudoClass '''' this))) 4 str
        = stringify_step (settings this) 4 str @ '':'')
   \<and> fst (CreateSelector_stringify (snd (cssSelectorBuilder_element ''''))) = ''''
   \<and> fst (CreateSelector_stringify (snd (cssSelectorBuilder_id ''''))) = ''''
   \<and> fst (CreateSelector_stringify (snd (cssSelectorBuilder_pseudoElement ''''))) = ''''
   \<and> fst (CreateSelector_stringify (snd (cssSelectorBuilder_class ''''))) = ''.''
   \<and> fst (CreateSelector_stringify (snd (cssSelectorBuilder_attr ''''))) = ''[]''
   \<and> fst (CreateSelector_stringify (snd (cssSelectorBuilder_pseudoClass ''''))) = '':''"
proof (intro conjI impI)
  assume "fst (CreateSelector_element '''' this) = None"
  from invoke_settings [of "Element ''''" this] this
  show "fst (CreateSelector_stringify (snd (CreateSelector_element '''' this)))
        = fst (CreateSelector_stringify (this\<lparr>settings := (settings this)\<lparr>element := None\<rparr>\<rparr>))"
    by (simp add: stringify_closed nullable_part_def)
next
  assume "fst (CreateSelector_id '''' this) = None"
  from invoke_settings [of "Id' ''''" this] this
  show "fst (CreateSelector_stringify (snd (CreateSelector_id '''' this)))
        = fst (CreateSelector_stringify (this\<lparr>settings := (settings this)\<lparr>id' := None\<rparr>\<rparr>))"
    by (simp add: stringify_closed nullable_part_def)
next
  assume "fst (CreateSelector_pseudoElement '''' this) = None"
  from invoke_settings [of "PseudoElement ''''" this] this
  show "fst (CreateSelector_stringify (snd (CreateSelector_pseudoElement '''' this)))
        = fst (CreateSelector_stringify (this\<lparr>settings := (settings this)\<lparr>pseudoElement := None\<rparr>\<rparr>))"
    by (simp add: stringify_closed nullable_part_def)
next
  assume "fst (CreateSelector_class '''' this) = None"
  from invoke_settings [of "Class ''''" this] this
  show "stringify_step (settings (snd (CreateSelector_class '''' this))) 2 str
        = stringify_step (settings this) 2 str @ ''.''"
    by (simp add: step_2)
next
  assume "fst (CreateSelector_attr '''' this) = None"
  from invoke_settings [of "Attr ''''" this] this
  show "stringify_step (settings (snd (CreateSelector_attr '''' this))) 3 str
        = stringify_step (settings this) 3 str @ ''[]''"
    by (simp add: step_3)
next
  assume "fst (CreateSelector_pseudoClass '''' this) = None"
  from invoke_settings [of "PseudoClass ''''" this] this
  show "stringify_step (settings (snd (CreateSelector_pseudoClass '''' this))) 4 str
        = stringify_step (settings this) 4 str @ '':''"
    by (simp add: step_4)
next
  show "fst (CreateSelector_stringify (snd (cssSelectorBuilder_element ''''))) = ''''"
    by (simp add: cssSelectorBuilder_element_def run_simps stringify_closed nullable_part_def)
  show "fst (CreateSelector_stringify (snd (cssSelectorBuilder_id ''''))) = ''''"
    by (simp add: cssSelectorBuilder_id_def run_simps stringify_closed nullable_part_def)
  show "fst (CreateSelector_stringify (snd (cssSelectorBuilder_pseudoElement ''''))) = ''''"
    by (simp add: cssSelectorBuilder_pseudoElement_def run_simps stringify_closed nullable_part_def)
  show "fst (CreateSelector_stringify (snd (cssSelectorBuilder_class ''''))) = ''.''"
    by (simp add: cssSelectorBuilder_class_def run_simps stringify_closed nullable_part_def)
  show "fst (CreateSelector_stringify (snd (cssSelectorBuilder_attr ''''))) = ''[]''"
    by (simp add: cssSelectorBuilder_attr_def run_simps stringify_closed nullable_part_def)
  show "fst (CreateSelector_stringify (snd (cssSelectorBuilder_pseudoClass ''''))) = '':''"
    by (simp add: cssSelectorBuilder_pseudoClass_def run_simps stringify_closed nullable_part_def)
qed

theorem empty_string_fragments_witness:
  "fst (CreateSelector_stringify (snd (CreateSelector_id '''' (snd (cssSelectorBuilder_element ''a''))))) = ''a''
   \<and> fst (CreateSelector_stringify (snd (CreateSelector_pseudoElement '''' (snd (cssSelectorBuilder_element ''a''))))) = ''a''
   \<and> stringify_step (settings (snd (CreateSelector_class '''' (snd (cssSelectorBuilder_element ''a''))))) 2 ''a'' = ''a.''
   \<and> stringify_step (settings (snd (CreateSelector_attr '''' (snd (cssSelectorBuilder_element ''a''))))) 3 ''a'' = ''a[]''
   \<and> stringify_step (settings (snd (CreateSelector_pseudoClass '''' (snd (cssSelectorBuilder_element ''a''))))) 4 ''a'' = ''a:''
   \<and> fst (CreateSelector_stringify (snd (CreateSelector_element '''' CreateSelector_constructor))) = ''''"
proof -
  let ?a = "snd (cssSelectorBuilder_element ''a'')"
  have a: "?a = \<lparr>settings = \<lparr>element = Some ''a'', id' = None, class' = [], attr = [], pseudoClass = [],
                   pseudoElement = None\<rparr>, lastElement = ''element''\<rparr>"
    by (simp add: cssSelectorBuilder_element_def run_simps)
  have ok: "fst (CreateSelector_id '''' ?a) = None" "fst (CreateSelector_pseudoElement '''' ?a) = None"
    "fst (CreateSelector_class '''' ?a) = None" "fst (CreateSelector_attr '''' ?a) = None"
    "fst (CreateSelector_pseudoClass '''' ?a) = None"
    "fst (CreateSelector_element '''' CreateSelector_constructor) = None"
    by (simp_all add: a run_simps)
  have r: "fst (CreateSelector_stringify (?a\<lparr>settings := (settings ?a)\<lparr>id' := None\<rparr>\<rparr>)) = ''a''"
    "fst (CreateSelector_stringify (?a\<lparr>settings := (settings ?a)\<lparr>pseudoElement := None\<rparr>\<rparr>)) = ''a''"
    "stringify_step (settings ?a) 2 ''a'' = ''a''" "stringify_step (settings ?a) 3 ''a'' = ''a''"
    "stringify_step (settings ?a) 4 ''a'' = ''a''"
    "fst (CreateSelector_stringify (CreateSelector_constructor\<lparr>settings := (settings CreateSelector_constructor)\<lparr>element := None\<rparr>\<rparr>)) = ''''"
    by (simp_all add: a stringify_closed nullable_part_def step_2 step_3 step_4 CreateSelector_constructor_def)
  from empty_string_fragments [of ?a "''a''"] empty_string_fragments [of CreateSelector_constructor "''a''"] ok r
  show ?thesis by simp
qed


subsection \<open>Combined selectors\<close>

text \<open>
  C3. For all selector values \<open>l\<close> and \<open>r\<close>, single or combined, and every token \<open>t\<close>,
  \<open>combine(l, t, r).stringify()\<close> is \<open>l.stringify()\<close>, a space, \<open>t\<close>, a space and
  \<open>r.stringify()\<close>; a combined operand expands the same way in its place. In particular
  \<open>combine(element('div').id('main'), '+', element('table').id('data'))\<close> renders as
  \<open>div#main + table#data\<close>. The last conjunct is the nested example of the source's
  documentation, whose innermost token is a single space.
\<close>

theorem combine_stringify:
  "fst (stringify (combine l t r)) = fst (stringify l) @ '' '' @ t @ '' '' @ fst (stringify r)
   \<and> fst (stringify (combine l t (combine m u r)))
       = fst (stringify l) @ '' '' @ t @ '' '' @ fst (stringify m) @ '' '' @ u @ '' '' @ fst (stringify r)
   \<and> fst (chain [Element ''div'', Id' ''main''] CreateSelector_constructor) = None
   \<and> fst (chain [Element ''table'', Id' ''data''] CreateSelector_constructor) = None
   \<and> fst (stringify (combine
         (Selector (snd (chain [Element ''div'', Id' ''main''] CreateSelector_constructor)))
         ''+''
         (Selector (snd (chain [Element ''table'', Id' ''data''] CreateSelector_constructor)))))
       = ''div#main + table#data''
   \<and> fst (stringify (combine
         (Selector (snd (chain [Element ''div'', Id' ''main'', Class ''container'', Class ''draggable'']
                           CreateSelector_constructor)))
         ''+''
         (combine
            (Selector (snd (chain [Element ''table'', Id' ''data''] CreateSelector_constructor)))
            ''~''
            (combine
               (Selector (snd (chain [Element ''tr'', PseudoClass ''nth-of-type(even)'']
                                 CreateSelector_constructor)))
               '' ''
               (Selector (snd (chain [Element ''td'', PseudoClass ''nth-of-type(even)'']
                                 CreateSelector_constructor)))))))
       = ''div#main.container.draggable + table#data ~ tr:nth-of-type(even)   td:nth-of-type(even)''"
proof (intro conjI)
  show "fst (stringify (combine l t r)) = fst (stringify l) @ '' '' @ t @ '' '' @ fst (stringify r)"
    by (simp only: combine_def stringify_Combinator)
  show "fst (stringify (combine l t (combine m u r)))
       = fst (stringify l) @ '' '' @ t @ '' '' @ fst (stringify m) @ '' '' @ u @ '' '' @ fst (stringify r)"
    by (simp only: combine_def stringify_Combinator append_assoc)
  show "fst (chain [Element ''div'', Id' ''main''] CreateSelector_constructor) = None"
    by (simp add: run_simps)
  show "fst (chain [Element ''table'', Id' ''data''] CreateSelector_constructor) = None"
    by (simp add: run_simps)
  have l: "fst (CreateSelector_stringify (snd (chain [Element ''div'', Id' ''main''] CreateSelector_constructor))) = ''div#main''"
    by (simp add: run_simps stringify_closed nullable_part_def)
  have r: "fst (CreateSelector_stringify (snd (chain [Element ''table'', Id' ''data''] CreateSelector_constructor))) = ''table#data''"
    by (simp add: run_simps stringify_closed nullable_part_def)
  show "fst (stringify (combine
         (Selector (snd (chain [Element ''div'', Id' ''main''] CreateSelector_constructor)))
         ''+''
         (Selector (snd (chain [Element ''table'', Id' ''data''] CreateSelector_constructor)))))
       = ''div#main + table#data''"
    by (simp only: combine_def stringify_Combinator stringify_Selector l r) simp
  have d: "fst (CreateSelector_stringify (snd (chain [Element ''div'', Id' ''main'', Class ''container'',
              Class ''draggable''] CreateSelector_constructor))) = ''div#main.container.draggable''"
    by (simp add: run_simps stringify_closed nullable_part_def)
  have tr: "fst (CreateSelector_stringify (snd (chain [Element ''tr'', PseudoClass ''nth-of-type(even)'']
              CreateSelector_constructor))) = ''tr:nth-of-type(even)''"
    by (simp add: run_simps stringify_closed nullable_part_def)
  have td: "fst (CreateSelector_stringify (snd (chain [Element ''td'', PseudoClass ''nth-of-type(even)'']
              CreateSelector_constructor))) = ''td:nth-of-type(even)''"
    by (simp add: run_simps stringify_closed nullable_part_def)
  show "fst (stringify (combine
         (Selector (snd (chain [Element ''div'', Id' ''main'', Class ''container'', Class ''draggable'']
                           CreateSelector_constructor)))
         ''+''
         (combine
            (Selector (snd (chain [Element ''table'', Id' ''data''] CreateSelector_constructor)))
            ''~''
            (combine
               (Selector (snd (chain [Element ''tr'', PseudoClass ''nth-of-type(even)'']
                                 CreateSelector_constructor)))
               '' ''
               (Selector (snd (chain [Element ''td'', PseudoClass ''nth-of-type(even)'']
                                 CreateSelector_constructor)))))))
       = ''div#main.container.draggable + table#data ~ tr:nth-of-type(even)   td:nth-of-type(even)''"
    by (simp only: combine_def stringify_Combinator stringify_Selector d r tr td) simp
qed

text \<open>
  C7. Calling \<open>stringify()\<close> on a selector value, single or combined, any number of times
  returns the same string every time, and leaves the value as it was.
\<close>

theorem stringify_repeatable:
  "stringify_times n s = (replicate n (fst (stringify s)), s) \<and> snd (stringify s) = s"
proof
  show "stringify_times n s = (replicate n (fst (stringify s)), s)"
  proof (induction n)
    case 0
    then show ?case by simp
  next
    case (Suc n)
    obtain str where "stringify s = (str, s)"
      using stringify_unchanged [of s] by (cases "stringify s") auto
    with Suc show ?case by simp
  qed
  show "snd (stringify s) = s" by (rule stringify_unchanged)
qed

end
